theory Spec2Isabelle
  imports Main "HOL-Library.AList"
begin

section \<open>Bounded cache (the useCache hook)\<close>

text \<open>
  The hook keeps two mutable cells: \<open>cacheRef\<close>, a JavaScript \<open>Map\<close> from keys to
  entries, and \<open>accessOrderRef\<close>, an array of keys with the most recently touched key
  first. A \<open>Map\<close> is modelled as an association list with distinct keys in
  insertion order: \<open>Map.set\<close> is \<open>AList.update\<close> (an existing key keeps its
  place, a new key goes to the end), \<open>Map.delete\<close> is \<open>AList.delete\<close>,
  \<open>Map.get\<close> is \<open>map_of\<close> and \<open>Map.size\<close> is the length of the list.
  The optional \<open>storage\<close> (a DOM \<open>Storage\<close>) is an optional association list
  from storage keys to strings. Times are milliseconds as given by \<open>Date.now()\<close>;
  each operation receives the clock value it reads as the argument \<open>now\<close>
  (\<open>set\<close> reads the clock twice in one expression; both reads are \<open>now\<close>).
  A value of \<open>T | null\<close> is an option. The effect that loads the entries of the
  storage when the hook mounts, and \<open>refresh\<close>, which is a fetch followed by
  \<open>set\<close>, are not modelled: a cache starts as \<open>emptyCache\<close>.

  The entry field \<open>data\<close> of the source is called \<open>edata\<close> here, and the
  hook's React state \<open>data\<close> and \<open>error\<close> are \<open>lastData\<close> and
  \<open>cacheError\<close>, because the synchronizer below has fields of the same names.
  The operations \<open>set\<close>, \<open>get\<close>, \<open>remove\<close>, \<open>clear\<close>,
  \<open>has\<close> and \<open>keys\<close> of the hook carry the prefix \<open>cache_\<close>.
\<close>

record 'v CacheEntry =
  edata :: 'v
  timestamp :: int
  expiresAt :: int

record 'v CacheOptions =
  ttl :: int
  maxSize :: nat
  validate :: "('v \<Rightarrow> bool) option"
  serialize :: "'v CacheEntry \<Rightarrow> string"

record 'v CacheState =
  cacheRef :: "(string \<times> 'v CacheEntry) list"
  accessOrderRef :: "string list"
  storage :: "(string \<times> string) list option"
  lastData :: "'v option"
  cacheError :: "string option"

definition emptyCache :: "(string \<times> string) list option \<Rightarrow> 'v CacheState" where
  "emptyCache sto =
     \<lparr>cacheRef = [], accessOrderRef = [], storage = sto, lastData = None, cacheError = None\<rparr>"

definition storageKey :: "string \<Rightarrow> string" where
  "storageKey key = ''cache:'' @ key"

definition removeItem :: "string \<Rightarrow> 'v CacheState \<Rightarrow> 'v CacheState" where
  "removeItem key st = st\<lparr>storage := map_option (AList.delete (storageKey key)) (storage st)\<rparr>"

definition updateAccessOrder :: "string \<Rightarrow> 'v CacheState \<Rightarrow> 'v CacheState" where
  "updateAccessOrder key st =
     st\<lparr>accessOrderRef := key # filter (\<lambda>k. k \<noteq> key) (accessOrderRef st)\<rparr>"

text \<open>
  \<open>enforceSizeLimit\<close> is the source's \<open>while (cache.size > maxSize)\<close> loop. Each
  round pops the last key of the access order; \<open>pop()\<close> on an empty array gives
  \<open>undefined\<close> and changes nothing. The body deletes the entry only under
  \<open>if (lastKey)\<close>, a truthiness test that is false for \<open>undefined\<close> and also
  for the empty string. A loop that never ends is the value \<open>None\<close>.
\<close>

partial_function (option) enforceSizeLimit :: "nat \<Rightarrow> 'v CacheState \<Rightarrow> 'v CacheState option"
  where
  "enforceSizeLimit limit st =
     (if limit < length (cacheRef st) then
        (case rev (accessOrderRef st) of
           [] \<Rightarrow> enforceSizeLimit limit st
         | lastKey # others \<Rightarrow>
             (if lastKey = [] then enforceSizeLimit limit (st\<lparr>accessOrderRef := rev others\<rparr>)
              else enforceSizeLimit limit
                     (removeItem lastKey
                        (st\<lparr>accessOrderRef := rev others,
                            cacheRef := AList.delete lastKey (cacheRef st)\<rparr>))))
      else Some st)"

declare enforceSizeLimit.simps [code]

definition rejects :: "('v \<Rightarrow> bool) option \<Rightarrow> 'v \<Rightarrow> bool" where
  "rejects v x = (case v of None \<Rightarrow> False | Some ok \<Rightarrow> (if ok x then False else True))"

definition cache_set ::
  "'v CacheOptions \<Rightarrow> int \<Rightarrow> string \<Rightarrow> 'v \<Rightarrow> 'v CacheState \<Rightarrow> 'v CacheState option" where
  "cache_set opts now key val st =
     (if rejects (validate opts) val then Some (st\<lparr>cacheError := Some ''Invalid data''\<rparr>)
      else
        (let entry = \<lparr>edata = val, timestamp = now, expiresAt = now + ttl opts\<rparr> in
         case enforceSizeLimit (maxSize opts)
                (updateAccessOrder key (st\<lparr>cacheRef := AList.update key entry (cacheRef st)\<rparr>)) of
           None \<Rightarrow> None
         | Some st2 \<Rightarrow>
             Some (st2\<lparr>storage :=
                          map_option (AList.update (storageKey key) (serialize opts entry))
                            (storage st2),
                       lastData := Some val, cacheError := None\<rparr>)))"

definition cache_get :: "int \<Rightarrow> string \<Rightarrow> 'v CacheState \<Rightarrow> 'v option \<times> 'v CacheState" where
  "cache_get now key st =
     (case map_of (cacheRef st) key of
        None \<Rightarrow> (None, st)
      | Some entry \<Rightarrow>
          (if expiresAt entry < now
           then (None, removeItem key (st\<lparr>cacheRef := AList.delete key (cacheRef st)\<rparr>))
           else (Some (edata entry), updateAccessOrder key st)))"

definition cache_remove :: "string \<Rightarrow> 'v CacheState \<Rightarrow> 'v CacheState" where
  "cache_remove key st =
     removeItem key
       (st\<lparr>cacheRef := AList.delete key (cacheRef st),
           accessOrderRef := filter (\<lambda>k. k \<noteq> key) (accessOrderRef st)\<rparr>)"

definition startsWith :: "string \<Rightarrow> string \<Rightarrow> bool" where
  "startsWith s p = (take (length p) s = p)"

definition cache_clear :: "'v CacheState \<Rightarrow> 'v CacheState" where
  "cache_clear st =
     st\<lparr>cacheRef := [], accessOrderRef := [],
         storage := map_option (filter (\<lambda>(k, v). \<not> startsWith k ''cache:'')) (storage st)\<rparr>"

definition cache_has :: "int \<Rightarrow> string \<Rightarrow> 'v CacheState \<Rightarrow> bool \<times> 'v CacheState" where
  "cache_has now key st =
     (case map_of (cacheRef st) key of
        None \<Rightarrow> (False, st)
      | Some entry \<Rightarrow>
          (if expiresAt entry < now then (False, cache_remove key st) else (True, st)))"

definition cache_keys :: "'v CacheState \<Rightarrow> string list" where
  "cache_keys st = map fst (cacheRef st)"


section \<open>Bounded retry (retryRequest of the useNetwork hook)\<close>

text \<open>
  A request is a function from the number of the attempt (from 0) to what that attempt
  does: it throws a value (\<open>Inl\<close>) or resolves (\<open>Inr\<close>). A thrown value that is
  not an \<open>Error\<close> object is replaced by \<open>new Error('Request failed')\<close>.
  The loop records what it does, an \<open>Attempt\<close> for every call of the request and a
  \<open>Wait\<close> for every \<open>setTimeout\<close> delay it awaits. The flag \<open>online\<close> is
  the \<open>state.online\<close> that the callback captured when it was created: when it is
  false, the callback waits for a promise that resolves only if that same captured
  flag is true, so it never returns (\<open>None\<close>).
\<close>

datatype thrown = ErrorObj string | NonError

datatype retry_event = Attempt nat | Wait nat

definition toError :: "thrown \<Rightarrow> string \<Rightarrow> string" where
  "toError t fallback = (case t of ErrorObj msg \<Rightarrow> msg | NonError \<Rightarrow> fallback)"

function retryLoop ::
  "bool \<Rightarrow> (nat \<Rightarrow> thrown + 'a) \<Rightarrow> nat \<Rightarrow> nat \<Rightarrow> nat \<Rightarrow> string option
     \<Rightarrow> (retry_event list \<times> (string + 'a)) option" where
  "retryLoop online request maxRetries delay i lastError =
     (if i < maxRetries then
        (case request i of
           Inr v \<Rightarrow> Some ([Attempt i], Inr v)
         | Inl t \<Rightarrow>
             (if online then
                (case retryLoop online request maxRetries delay (i + 1)
                        (Some (toError t ''Request failed'')) of
                   None \<Rightarrow> None
                 | Some (evs, r) \<Rightarrow> Some (Attempt i # Wait (delay * (i + 1)) # evs, r))
              else None))
      else Some ([], Inl (case lastError of
                            Some e \<Rightarrow> e
                          | None \<Rightarrow> ''Request failed after retries'')))"
  by pat_completeness auto
termination
  by (relation "measure (\<lambda>(online, request, maxRetries, delay, i, lastError). maxRetries - i)")
     auto

definition retryRequest ::
  "bool \<Rightarrow> (nat \<Rightarrow> thrown + 'a) \<Rightarrow> nat \<Rightarrow> nat \<Rightarrow> (retry_event list \<times> (string + 'a)) option"
  where
  "retryRequest online request maxRetries delay =
     retryLoop online request maxRetries delay 0 None"

section \<open>Synchronizer (the useSync hook)\<close>

text \<open>
  The synchronized data \<open>T\<close> is a JavaScript object: an association list from field
  names to values, in insertion order. The default merge strategy is the object spread
  \<open>{...local, ...remote}\<close>: every field of \<open>remote\<close> is written over
  \<open>local\<close>.

  The hook's callbacks are closures. \<open>sync\<close> reads \<open>online\<close>,
  \<open>state.isSyncing\<close> and \<open>pendingChanges\<close> as they were in the render that
  created the callback (they are in its dependency list); it writes the React state
  through \<open>setState\<close>. The captured values are the record \<open>SyncClosure\<close>,
  an explicit argument of \<open>sync\<close>; \<open>render\<close> gives the closure of a callback
  created from the current state. \<open>update\<close> uses only functional updates
  (\<open>setState(prev => ...)\<close>), so it works on the current state.

  The fields \<open>timestamp\<close>, \<open>data\<close> and \<open>type\<close> of a pending change are
  \<open>pc_timestamp\<close>, \<open>pc_data\<close> and \<open>pc_type\<close>.
\<close>

type_synonym 'v obj = "(string \<times> 'v) list"

datatype SyncStatus = Idle | Syncing | Error | Success

datatype ChangeType = Update | Delete

record 'v PendingChange =
  pc_timestamp :: int
  pc_data :: "'v obj"
  pc_type :: ChangeType

datatype 'v io_event = FetchIO retry_event | PushIO "'v obj" retry_event

datatype 'v callback = OnSync "'v obj" | OnError string

record 'v SyncOptions =
  retryAttempts :: nat
  retryDelay :: nat
  fetchData :: "(nat \<Rightarrow> thrown + 'v obj) option"
  pushData :: "('v obj \<Rightarrow> nat \<Rightarrow> thrown + unit) option"
  mergeStrategy :: "('v obj \<Rightarrow> 'v obj \<Rightarrow> 'v obj) option"
  validateData :: "('v obj \<Rightarrow> bool) option"

text \<open>
  Modelled from the spec: the hook \<open>useLocalStorage\<close>, which keeps the pending
  log, is not among the sources. The specification describes the log as the ordered
  array of pending changes stored durably under the key
  \<open><resourceKey>_pending_changes\<close>, in insertion order. It is the field
  \<open>pendingChanges\<close> of the state, and \<open>setPendingChanges\<close> replaces it.

  Beside the React state of the hook and the pending log, the state record holds the
  \<open>isMounted\<close> cell and two logs of what the hook did to the outside:
  \<open>io\<close>, the attempts and waits of its fetch and push requests, and
  \<open>callbacks\<close>, the calls of \<open>onSync\<close> and \<open>onError\<close>.
\<close>

record 'v SyncState =
  data :: "'v obj"
  lastSynced :: "int option"
  isSyncing :: bool
  error :: "string option"
  syncStatus :: SyncStatus
  pendingChanges :: "'v PendingChange list"
  isMounted :: bool
  io :: "'v io_event list"
  callbacks :: "'v callback list"

record 'v SyncClosure =
  c_online :: bool
  c_isSyncing :: bool
  c_pendingChanges :: "'v PendingChange list"

definition initialSync :: "'v obj \<Rightarrow> 'v PendingChange list \<Rightarrow> 'v SyncState" where
  "initialSync initialData stored =
     \<lparr>data = initialData, lastSynced = None, isSyncing = False, error = None,
      syncStatus = Idle, pendingChanges = stored, isMounted = True, io = [], callbacks = []\<rparr>"

definition render :: "bool \<Rightarrow> 'v SyncState \<Rightarrow> 'v SyncClosure" where
  "render online st =
     \<lparr>c_online = online, c_isSyncing = isSyncing st, c_pendingChanges = pendingChanges st\<rparr>"

definition defaultMergeStrategy :: "'v obj \<Rightarrow> 'v obj \<Rightarrow> 'v obj" where
  "defaultMergeStrategy local remote = foldl (\<lambda>acc (k, v). AList.update k v acc) local remote"

definition merge :: "'v SyncOptions \<Rightarrow> 'v obj \<Rightarrow> 'v obj \<Rightarrow> 'v obj" where
  "merge opts = (case mergeStrategy opts of Some m \<Rightarrow> m | None \<Rightarrow> defaultMergeStrategy)"

definition validateAndApply :: "'v SyncOptions \<Rightarrow> 'v obj \<Rightarrow> bool" where
  "validateAndApply opts newData = (if rejects (validateData opts) newData then False else True)"

fun applyPending :: "('v obj \<Rightarrow> 'v obj \<Rightarrow> 'v obj) \<Rightarrow> 'v obj \<Rightarrow> 'v PendingChange list \<Rightarrow> 'v obj"
  where
  "applyPending m finalData [] = finalData"
| "applyPending m finalData (change # rest) =
     applyPending m (if pc_type change = Update then m finalData (pc_data change) else finalData)
       rest"

definition syncFailed :: "string \<Rightarrow> 'v SyncState \<Rightarrow> 'v SyncState" where
  "syncFailed msg st =
     (if isMounted st
      then st\<lparr>isSyncing := False, error := Some msg, syncStatus := Error,
              callbacks := callbacks st @ [OnError msg]\<rparr>
      else st)"

definition syncSucceeded :: "'v obj \<Rightarrow> int \<Rightarrow> 'v SyncState \<Rightarrow> 'v SyncState" where
  "syncSucceeded finalData now st =
     (if isMounted st
      then st\<lparr>data := finalData, lastSynced := Some now, isSyncing := False, error := None,
              syncStatus := Success, callbacks := callbacks st @ [OnSync finalData]\<rparr>
      else st)"

text \<open>
  \<open>syncEnter\<close> is the part of \<open>sync\<close> that runs before its first \<open>await\<close>:
  the guard \<open>if (!online || !fetchData || state.isSyncing) return\<close> on the captured
  values, then \<open>setState\<close> to \<open>syncing\<close>. It is \<open>None\<close> when the call
  returns at the guard. \<open>syncCycle\<close> is the rest of the call, from the fetch on.
\<close>

definition syncEnter ::
  "'v SyncOptions \<Rightarrow> 'v SyncClosure \<Rightarrow> 'v SyncState
     \<Rightarrow> ((nat \<Rightarrow> thrown + 'v obj) \<times> 'v SyncState) option" where
  "syncEnter opts cl st =
     (if c_online cl then
        (case fetchData opts of
           None \<Rightarrow> None
         | Some f \<Rightarrow>
             (if c_isSyncing cl then None
              else Some (f, st\<lparr>isSyncing := True, syncStatus := Syncing\<rparr>)))
      else None)"

definition pushStep ::
  "'v SyncOptions \<Rightarrow> int \<Rightarrow> 'v SyncClosure \<Rightarrow> 'v obj \<Rightarrow> 'v SyncState \<Rightarrow> 'v SyncState option"
  where
  "pushStep opts now cl finalData st =
     (case pushData opts of
        None \<Rightarrow> Some (syncSucceeded finalData now st)
      | Some p \<Rightarrow>
          (if c_pendingChanges cl = [] then Some (syncSucceeded finalData now st)
           else
             (case retryRequest (c_online cl) (p finalData) (retryAttempts opts) (retryDelay opts) of
                None \<Rightarrow> None
              | Some (evs, r) \<Rightarrow>
                  (case r of
                     Inl msg \<Rightarrow>
                       Some (syncFailed msg (st\<lparr>io := io st @ map (PushIO finalData) evs\<rparr>))
                   | Inr u \<Rightarrow>
                       Some (syncSucceeded finalData now
                               (st\<lparr>io := io st @ map (PushIO finalData) evs,
                                   pendingChanges := []\<rparr>))))))"

definition syncCycle ::
  "'v SyncOptions \<Rightarrow> int \<Rightarrow> 'v SyncClosure \<Rightarrow> (nat \<Rightarrow> thrown + 'v obj) \<Rightarrow> 'v SyncState
     \<Rightarrow> 'v SyncState option" where
  "syncCycle opts now cl f st =
     (case retryRequest (c_online cl) f (retryAttempts opts) (retryDelay opts) of
        None \<Rightarrow> None
      | Some (evs, r) \<Rightarrow>
          (case r of
             Inl msg \<Rightarrow> Some (syncFailed msg (st\<lparr>io := io st @ map FetchIO evs\<rparr>))
           | Inr remoteData \<Rightarrow>
               (let finalData = applyPending (merge opts) remoteData (c_pendingChanges cl) in
                if validateAndApply opts finalData
                then pushStep opts now cl finalData (st\<lparr>io := io st @ map FetchIO evs\<rparr>)
                else Some (syncFailed ''Data validation failed''
                             (st\<lparr>io := io st @ map FetchIO evs\<rparr>)))))"

definition sync ::
  "'v SyncOptions \<Rightarrow> int \<Rightarrow> 'v SyncClosure \<Rightarrow> 'v SyncState \<Rightarrow> 'v SyncState option" where
  "sync opts now cl st =
     (case syncEnter opts cl st of
        None \<Rightarrow> Some st
      | Some (f, st1) \<Rightarrow> syncCycle opts now cl f st1)"

definition update :: "'v SyncOptions \<Rightarrow> int \<Rightarrow> 'v obj \<Rightarrow> 'v SyncState \<Rightarrow> 'v SyncState" where
  "update opts now changes st =
     (let newData = merge opts (data st) changes in
      if validateAndApply opts newData
      then st\<lparr>pendingChanges :=
                 pendingChanges st @ [\<lparr>pc_timestamp = now, pc_data = changes, pc_type = Update\<rparr>],
              data := newData\<rparr>
      else st)"


section \<open>Reconnecting channel (the useWebSocket hook)\<close>

text \<open>
  The hook holds React state (\<open>readyState\<close>, \<open>connected\<close>, \<open>error\<close>,
  \<open>reconnectCount\<close>) and mutable cells (\<open>wsRef\<close>, the two timer cells,
  \<open>reconnectingRef\<close>, \<open>messageQueueRef\<close>). Every call of \<open>connect\<close>
  makes a new \<open>WebSocket\<close> and installs handlers on it; a socket that \<open>wsRef\<close>
  no longer points to keeps its handlers, so the state keeps the list of all sockets
  made, each with its transport state and the closure of the \<open>connect\<close> call that
  made it, and \<open>wsRef\<close> is an index into that list.

  \<open>connect\<close> is a closure: it reads \<open>online\<close> and \<open>state.reconnectCount\<close>
  as they were in the render that created it (both are in its dependency list), and the
  handlers it installs, and the reconnect timer they start, read the same captured
  values; the timer calls that same \<open>connect\<close> again. The captured values are the
  record \<open>ConnectClosure\<close>. \<open>send\<close> and \<open>close\<close> read mutable cells only.

  A message is a string or another value, which \<open>send\<close> passes through
  \<open>JSON.stringify\<close> (the option \<open>stringify\<close> here). \<open>transmitted\<close> logs
  every \<open>ws.send\<close> with the socket it went to. \<open>lastMessage\<close> and the
  \<open>onmessage\<close> handler are left out, as are exceptions of the \<open>WebSocket\<close>
  constructor and of \<open>ws.send\<close>. The state field \<open>error\<close> is
  \<open>wsError\<close>. \<open>reconnectTimeoutRef\<close> is the pending reconnect timer, if any,
  with the closure it will run; \<open>heartbeatIntervalRef\<close> tells whether the
  heartbeat interval last started is running.
\<close>

datatype ReadyState = CONNECTING | OPEN | CLOSING | CLOSED

datatype 'a message = Text string | Json 'a

record ConnectClosure =
  cc_online :: bool
  cc_reconnectCount :: nat

record Socket =
  socketState :: ReadyState
  madeBy :: ConnectClosure

record 'a WebSocketOptions =
  reconnectAttempts :: nat
  reconnectInterval :: nat
  heartbeatInterval :: nat
  heartbeatMessage :: "'a message"
  stringify :: "'a \<Rightarrow> string"

record 'a ChannelState =
  readyState :: ReadyState
  connected :: bool
  wsError :: "string option"
  reconnectCount :: nat
  wsRef :: "nat option"
  sockets :: "Socket list"
  reconnectTimeoutRef :: "ConnectClosure option"
  heartbeatIntervalRef :: bool
  reconnectingRef :: bool
  messageQueueRef :: "'a message list"
  transmitted :: "(nat \<times> string) list"

datatype 'a event =
    Connect ConnectClosure
  | Send "'a message"
  | Close
  | WsOpen nat
  | WsClose nat
  | WsError nat
  | ReconnectTimer

definition initialChannel :: "'a ChannelState" where
  "initialChannel =
     \<lparr>readyState = CLOSED, connected = False, wsError = None, reconnectCount = 0,
      wsRef = None, sockets = [], reconnectTimeoutRef = None, heartbeatIntervalRef = False,
      reconnectingRef = False, messageQueueRef = [], transmitted = []\<rparr>"

definition connectClosure :: "bool \<Rightarrow> 'a ChannelState \<Rightarrow> ConnectClosure" where
  "connectClosure online st = \<lparr>cc_online = online, cc_reconnectCount = reconnectCount st\<rparr>"

definition currentState :: "'a ChannelState \<Rightarrow> ReadyState option" where
  "currentState st =
     (case wsRef st of
        None \<Rightarrow> None
      | Some i \<Rightarrow> (if i < length (sockets st) then Some (socketState (sockets st ! i)) else None))"

definition setSocketState :: "nat \<Rightarrow> ReadyState \<Rightarrow> 'a ChannelState \<Rightarrow> 'a ChannelState" where
  "setSocketState i r st =
     (if i < length (sockets st)
      then st\<lparr>sockets := (sockets st)[i := (sockets st ! i)\<lparr>socketState := r\<rparr>]\<rparr>
      else st)"

definition wire :: "'a WebSocketOptions \<Rightarrow> 'a message \<Rightarrow> string" where
  "wire opts message = (case message of Text s \<Rightarrow> s | Json a \<Rightarrow> stringify opts a)"

definition connect :: "ConnectClosure \<Rightarrow> 'a ChannelState \<Rightarrow> 'a ChannelState" where
  "connect cl st =
     (if cc_online cl then
        (if currentState st = Some OPEN then st
         else st\<lparr>sockets := sockets st @ [\<lparr>socketState = CONNECTING, madeBy = cl\<rparr>],
                 wsRef := Some (length (sockets st)),
                 readyState := CONNECTING\<rparr>)
      else st)"

definition send :: "'a WebSocketOptions \<Rightarrow> 'a message \<Rightarrow> 'a ChannelState \<Rightarrow> bool \<times> 'a ChannelState"
  where
  "send opts message st =
     (case wsRef st of
        None \<Rightarrow> (False, st\<lparr>messageQueueRef := messageQueueRef st @ [message]\<rparr>)
      | Some i \<Rightarrow>
          (if currentState st = Some OPEN
           then (True, st\<lparr>transmitted := transmitted st @ [(i, wire opts message)]\<rparr>)
           else (False, st\<lparr>messageQueueRef := messageQueueRef st @ [message]\<rparr>)))"

text \<open>
  The flush loop of \<open>onopen\<close>: \<open>while (queue.length > 0) send(queue.shift())\<close>.
  When the socket \<open>wsRef\<close> points to is not open, \<open>send\<close> puts the message
  back and the loop never ends (\<open>None\<close>).
\<close>

partial_function (option) flushQueue ::
  "'a WebSocketOptions \<Rightarrow> 'a ChannelState \<Rightarrow> 'a ChannelState option" where
  "flushQueue opts st =
     (case messageQueueRef st of
        [] \<Rightarrow> Some st
      | message # rest \<Rightarrow> flushQueue opts (snd (send opts message (st\<lparr>messageQueueRef := rest\<rparr>))))"

declare flushQueue.simps [code]

definition onopen :: "'a WebSocketOptions \<Rightarrow> 'a ChannelState \<Rightarrow> 'a ChannelState option" where
  "onopen opts st =
     (case flushQueue opts
             (st\<lparr>connected := True, wsError := None, readyState := OPEN, reconnectCount := 0\<rparr>) of
        None \<Rightarrow> None
      | Some st2 \<Rightarrow>
          Some (if 0 < heartbeatInterval opts then st2\<lparr>heartbeatIntervalRef := True\<rparr> else st2))"

definition onclose :: "'a WebSocketOptions \<Rightarrow> ConnectClosure \<Rightarrow> 'a ChannelState \<Rightarrow> 'a ChannelState"
  where
  "onclose opts cl st =
     (let st1 = st\<lparr>connected := False, readyState := CLOSED, heartbeatIntervalRef := False\<rparr> in
      if reconnectingRef st1 then st1
      else if cc_reconnectCount cl < reconnectAttempts opts
           then st1\<lparr>reconnectingRef := True, reconnectTimeoutRef := Some cl\<rparr>
           else st1)"

definition onerror :: "'a ChannelState \<Rightarrow> 'a ChannelState" where
  "onerror st =
     st\<lparr>wsError := Some ''WebSocket error'',
         readyState := (case currentState st of
                          None \<Rightarrow> CLOSED
                        | Some CONNECTING \<Rightarrow> CLOSED
                        | Some r \<Rightarrow> r)\<rparr>"

definition reconnectTimer :: "'a ChannelState \<Rightarrow> 'a ChannelState" where
  "reconnectTimer st =
     (case reconnectTimeoutRef st of
        None \<Rightarrow> st
      | Some cl \<Rightarrow>
          connect cl
            (st\<lparr>reconnectTimeoutRef := None, reconnectCount := reconnectCount st + 1,
                reconnectingRef := False\<rparr>))"

definition closeSocket :: "ReadyState \<Rightarrow> ReadyState" where
  "closeSocket r = (case r of CONNECTING \<Rightarrow> CLOSING | OPEN \<Rightarrow> CLOSING | CLOSING \<Rightarrow> CLOSING
                    | CLOSED \<Rightarrow> CLOSED)"

definition close :: "'a ChannelState \<Rightarrow> 'a ChannelState" where
  "close st =
     (case wsRef st of
        None \<Rightarrow> st
      | Some i \<Rightarrow>
          (case currentState st of
             None \<Rightarrow> st
           | Some r \<Rightarrow> setSocketState i (closeSocket r) st))
     \<lparr>reconnectTimeoutRef := None, heartbeatIntervalRef := False, wsRef := None,
      messageQueueRef := [], connected := False, readyState := CLOSED\<rparr>"

text \<open>
  One step of the hook. \<open>Connect\<close>, \<open>Send\<close> and \<open>Close\<close> are calls of the
  hook's functions; \<open>WsOpen\<close>, \<open>WsClose\<close> and \<open>WsError\<close> are the
  transport's events on one socket, which first change that socket's transport state
  and then run the handler installed on it; \<open>ReconnectTimer\<close> is the reconnect
  timeout firing. An event the transport cannot raise (an open event on a socket that
  is not connecting, a close event on a closed or unknown socket) changes nothing.
\<close>

definition step :: "'a WebSocketOptions \<Rightarrow> 'a event \<Rightarrow> 'a ChannelState \<Rightarrow> 'a ChannelState option"
  where
  "step opts ev st =
     (case ev of
        Connect cl \<Rightarrow> Some (connect cl st)
      | Send message \<Rightarrow> Some (snd (send opts message st))
      | Close \<Rightarrow> Some (close st)
      | WsOpen i \<Rightarrow>
          (if i < length (sockets st) then
             (if socketState (sockets st ! i) = CONNECTING
              then onopen opts (setSocketState i OPEN st)
              else Some st)
           else Some st)
      | WsClose i \<Rightarrow>
          (if i < length (sockets st) then
             (if socketState (sockets st ! i) = CLOSED then Some st
              else Some (onclose opts (madeBy (sockets st ! i)) (setSocketState i CLOSED st)))
           else Some st)
      | WsError i \<Rightarrow> Some (if i < length (sockets st) then onerror st else st)
      | ReconnectTimer \<Rightarrow> Some (reconnectTimer st))"

fun run :: "'a WebSocketOptions \<Rightarrow> 'a event list \<Rightarrow> 'a ChannelState \<Rightarrow> 'a ChannelState option"
  where
  "run opts [] st = Some st"
| "run opts (ev # evs) st = (case step opts ev st of None \<Rightarrow> None | Some st' \<Rightarrow> run opts evs st')"


section \<open>Reference behaviours used in the statements\<close>

text \<open>
  The cache states reached from the empty state keep \<open>cacheInv\<close> as long as no key
  is the empty string: the access order has no empty key and no key twice, and every
  key of the cache is in it.
\<close>

definition cacheInv :: "'v CacheState \<Rightarrow> bool" where
  "cacheInv st =
     ([] \<notin> set (accessOrderRef st) \<and> distinct (accessOrderRef st)
      \<and> fst ` set (cacheRef st) \<subseteq> set (accessOrderRef st))"



text \<open>
  \<open>syncTimes n\<close> calls \<open>sync\<close> \<open>n\<close> times in a row while online, every call
  through a callback created from the state the call before left (a fresh render).
\<close>

fun syncTimes :: "'v SyncOptions \<Rightarrow> int \<Rightarrow> nat \<Rightarrow> 'v SyncState \<Rightarrow> 'v SyncState option" where
  "syncTimes opts now 0 st = Some st"
| "syncTimes opts now (Suc n) st =
     (case sync opts now (render True st) st of
        None \<Rightarrow> None
      | Some st' \<Rightarrow> syncTimes opts now n st')"

section \<open>Inputs of the worked examples\<close>

text \<open>
  \<open>defaultSync\<close> is a synchronizer with the hook's defaults (three attempts, one
  second) for a given fetch and an optional push. \<open>editedOffline\<close> is the state
  after one local edit: the data started as \<open>{count: 0}\<close> and
  \<open>update({count: 1})\<close> was called at time 1.
\<close>

definition defaultSync ::
  "(nat \<Rightarrow> thrown + nat obj) \<Rightarrow> (nat obj \<Rightarrow> nat \<Rightarrow> thrown + unit) option \<Rightarrow> nat SyncOptions"
  where
  "defaultSync f p =
     \<lparr>retryAttempts = 3, retryDelay = 1000, fetchData = Some f, pushData = p,
      mergeStrategy = None, validateData = None\<rparr>"

definition editedOffline :: "nat SyncState" where
  "editedOffline =
     update (defaultSync (\<lambda>i. Inl NonError) None) 1 [(''count'', 1)]
       (initialSync [(''count'', 0)] [])"

text \<open>
  A channel with \<open>reconnectAttempts = 3\<close> against a server that refuses every
  connection, as two event sequences. \<open>closureAt n\<close> is the closure of a
  \<open>connect\<close> created while online in a render where \<open>state.reconnectCount\<close>
  was \<open>n\<close>.

  \<open>refusedHandlers\<close> has the handlers and the timer only: \<open>connect\<close> of the
  first render makes socket 0; every socket is refused (its close event) and the
  reconnect timer fires after each.

  \<open>refusedWithEffects\<close> adds what the hook's two effects do. On mount both effects
  call \<open>connect\<close> of the first render (sockets 0 and 1). Each time the timer has
  fired, \<open>reconnectCount\<close> has changed, so the next render creates a new
  \<open>connect\<close>; the cleanup of the first effect calls \<open>close\<close>, the first effect
  calls the new \<open>connect\<close>, and the second effect calls it again while
  \<open>reconnectCount < reconnectAttempts\<close>. The sockets the timer made are 2, 5 and
  8: the first, second and third retry. The sequence ends when the third retry and the
  socket of the last render have failed.
\<close>

definition threeAttempts :: "unit WebSocketOptions" where
  "threeAttempts =
     \<lparr>reconnectAttempts = 3, reconnectInterval = 3000, heartbeatInterval = 30000,
      heartbeatMessage = Text ''ping'', stringify = (\<lambda>u. ''null'')\<rparr>"

definition closureAt :: "nat \<Rightarrow> ConnectClosure" where
  "closureAt n = \<lparr>cc_online = True, cc_reconnectCount = n\<rparr>"

definition refusedHandlers :: "unit event list" where
  "refusedHandlers =
     [Connect (closureAt 0), WsClose 0,
      ReconnectTimer, WsClose 1,
      ReconnectTimer, WsClose 2,
      ReconnectTimer, WsClose 3]"

definition refusedWithEffects :: "unit event list" where
  "refusedWithEffects =
     [Connect (closureAt 0), Connect (closureAt 0), WsClose 0, WsClose 1,
      ReconnectTimer, Close, Connect (closureAt 1), Connect (closureAt 1),
      WsClose 2, WsClose 3, WsClose 4,
      ReconnectTimer, Close, Connect (closureAt 2), Connect (closureAt 2),
      WsClose 5, WsClose 6, WsClose 7,
      ReconnectTimer, Close, Connect (closureAt 3),
      WsClose 8, WsClose 9]"

section \<open>Properties of the bounded retry\<close>

declare retryLoop.simps [simp del]









section \<open>Properties of the synchronizer\<close>

subsection \<open>The paths through one call of sync\<close>

lemmas sync_defs = sync_def syncEnter_def syncCycle_def pushStep_def Let_def

lemma sync_noop_at_guard:
  "syncEnter opts cl st = None \<Longrightarrow> sync opts now cl st = Some st"
  by (simp add: sync_def)

lemma syncEnter_None_iff:
  "syncEnter opts cl st = None \<longleftrightarrow> (\<not> c_online cl \<or> fetchData opts = None \<or> c_isSyncing cl)"
  by (auto simp: syncEnter_def split: option.splits)

lemma sync_dropped_when_fresh:
  "isSyncing st \<Longrightarrow> sync opts now (render online st) st = Some st"
  by (simp add: sync_def syncEnter_def render_def split: option.splits)


lemma sync_validation_failed:
  assumes "c_online cl" "\<not> c_isSyncing cl" "fetchData opts = Some f"
    and "retryRequest True f (retryAttempts opts) (retryDelay opts) = Some (evs, Inr remote)"
    and "\<not> validateAndApply opts (applyPending (merge opts) remote (c_pendingChanges cl))"
  shows "sync opts now cl st =
           Some (syncFailed ''Data validation failed''
                  (st\<lparr>isSyncing := True, syncStatus := Syncing, io := io st @ map FetchIO evs\<rparr>))"
  using assms by (simp add: sync_defs)

lemma sync_push_failed:
  assumes "c_online cl" "\<not> c_isSyncing cl" "fetchData opts = Some f"
    and "retryRequest True f (retryAttempts opts) (retryDelay opts) = Some (evs, Inr remote)"
    and "validateAndApply opts (applyPending (merge opts) remote (c_pendingChanges cl))"
    and "pushData opts = Some p" "c_pendingChanges cl \<noteq> []"
    and "retryRequest True (p (applyPending (merge opts) remote (c_pendingChanges cl)))
           (retryAttempts opts) (retryDelay opts) = Some (evs2, Inl msg)"
  shows "sync opts now cl st =
           Some (syncFailed msg
                  (st\<lparr>isSyncing := True, syncStatus := Syncing,
                      io := io st @ map FetchIO evs
                              @ map (PushIO (applyPending (merge opts) remote
                                               (c_pendingChanges cl))) evs2\<rparr>))"
  using assms by (simp add: sync_defs)

lemma sync_pushed:
  assumes "c_online cl" "\<not> c_isSyncing cl" "fetchData opts = Some f"
    and "retryRequest True f (retryAttempts opts) (retryDelay opts) = Some (evs, Inr remote)"
    and "validateAndApply opts (applyPending (merge opts) remote (c_pendingChanges cl))"
    and "pushData opts = Some p" "c_pendingChanges cl \<noteq> []"
    and "retryRequest True (p (applyPending (merge opts) remote (c_pendingChanges cl)))
           (retryAttempts opts) (retryDelay opts) = Some (evs2, Inr u)"
  shows "sync opts now cl st =
           Some (syncSucceeded (applyPending (merge opts) remote (c_pendingChanges cl)) now
                  (st\<lparr>isSyncing := True, syncStatus := Syncing,
                      io := io st @ map FetchIO evs
                              @ map (PushIO (applyPending (merge opts) remote
                                               (c_pendingChanges cl))) evs2,
                      pendingChanges := []\<rparr>))"
  using assms by (simp add: sync_defs)

lemma sync_nothing_to_push:
  assumes "c_online cl" "\<not> c_isSyncing cl" "fetchData opts = Some f"
    and "retryRequest True f (retryAttempts opts) (retryDelay opts) = Some (evs, Inr remote)"
    and "validateAndApply opts (applyPending (merge opts) remote (c_pendingChanges cl))"
    and "pushData opts = None \<or> c_pendingChanges cl = []"
  shows "sync opts now cl st =
           Some (syncSucceeded (applyPending (merge opts) remote (c_pendingChanges cl)) now
                  (st\<lparr>isSyncing := True, syncStatus := Syncing, io := io st @ map FetchIO evs\<rparr>))"
  using assms by (auto simp: sync_defs split: option.splits)

lemma sync_success_data:
  assumes "c_online cl" "\<not> c_isSyncing cl" "fetchData opts = Some f"
    and "retryRequest True f (retryAttempts opts) (retryDelay opts) = Some (evs, Inr remote)"
    and "sync opts now cl st = Some st'" "syncStatus st' = Success"
  shows "data st' = applyPending (merge opts) remote (c_pendingChanges cl)"
  using assms
  by (auto simp: sync_defs syncFailed_def syncSucceeded_def
           split: option.splits if_splits sum.splits prod.splits)

lemma applyPending_updates:
  "(\<And>c. c \<in> set log \<Longrightarrow> pc_type c = Update) \<Longrightarrow>
   applyPending m start log = foldl m start (map pc_data log)"
  by (induction log arbitrary: start) simp_all

lemma map_of_defaultMergeStrategy:
  "distinct (map fst remote) \<Longrightarrow>
   map_of (defaultMergeStrategy local remote) = map_of local ++ map_of remote"
proof (induction remote arbitrary: local)
  case Nil
  then show ?case by (simp add: defaultMergeStrategy_def)
next
  case (Cons kv remote)
  obtain k v where kv: "kv = (k, v)" by (cases kv)
  have notin: "k \<notin> dom (map_of remote)"
    using Cons.prems kv by (simp add: dom_map_of_conv_image_fst)
  have "map_of (defaultMergeStrategy local (kv # remote))
          = map_of (defaultMergeStrategy (AList.update k v local) remote)"
    by (simp add: defaultMergeStrategy_def kv)
  also have "\<dots> = map_of (AList.update k v local) ++ map_of remote"
    using Cons.prems by (intro Cons.IH) simp
  also have "\<dots> = map_of local ++ map_of (kv # remote)"
    using notin by (simp add: kv update_conv' map_add_upd_left)
  finally show ?case .
qed

lemma syncTimes_without_push:
  assumes "fetchData opts = Some f" "pushData opts = None"
    and "retryRequest True f (retryAttempts opts) (retryDelay opts) = Some (evs, Inr remote)"
    and "validateAndApply opts (applyPending (merge opts) remote (pendingChanges st))"
    and "isMounted st" "\<not> isSyncing st"
  shows "\<exists>st'. syncTimes opts now (Suc n) st = Some st'
           \<and> data st' = applyPending (merge opts) remote (pendingChanges st)
           \<and> pendingChanges st' = pendingChanges st \<and> isMounted st' \<and> \<not> isSyncing st'"
  using assms(4-6)
proof (induction n arbitrary: st)
  case 0
  have "sync opts now (render True st) st =
          Some (syncSucceeded
                  (applyPending (merge opts) remote (c_pendingChanges (render True st))) now
                  (st\<lparr>isSyncing := True, syncStatus := Syncing, io := io st @ map FetchIO evs\<rparr>))"
    using assms(1-3) 0 by (intro sync_nothing_to_push) (simp_all add: render_def)
  then show ?case
    using 0 by (simp add: syncSucceeded_def render_def)
next
  case (Suc n)
  let ?st1 = "syncSucceeded
                (applyPending (merge opts) remote (c_pendingChanges (render True st))) now
                (st\<lparr>isSyncing := True, syncStatus := Syncing, io := io st @ map FetchIO evs\<rparr>)"
  have s1: "sync opts now (render True st) st = Some ?st1"
    using assms(1-3) Suc.prems by (intro sync_nothing_to_push) (simp_all add: render_def)
  have p1: "pendingChanges ?st1 = pendingChanges st" "isMounted ?st1" "\<not> isSyncing ?st1"
    using Suc.prems by (simp_all add: syncSucceeded_def)
  have "\<exists>st'. syncTimes opts now (Suc n) ?st1 = Some st'
           \<and> data st' = applyPending (merge opts) remote (pendingChanges ?st1)
           \<and> pendingChanges st' = pendingChanges ?st1 \<and> isMounted st' \<and> \<not> isSyncing st'"
    using Suc.prems p1 by (intro Suc.IH) simp_all
  then show ?case
    using s1 p1(1) by (simp del: syncTimes.simps add: syncTimes.simps(2)[of opts now "Suc n" st])
qed

subsection \<open>Pending log after a failed push\<close>

text \<open>
  Claim C2. A call of \<open>sync\<close> passes the guard and is mounted; its fetch (with
  retries) gives \<open>remote\<close>, the merged data passes validation, a push capability is
  configured, the captured log is not empty and the push fails after its retries.
  Then the call returns, the pending log is exactly the log before the call, and the
  status is \<open>Error\<close>. After that, any call of \<open>sync\<close> through a callback of the
  next render, with any options whose fetch gives some \<open>remote2\<close>, whose validation
  accepts the merged data and whose push succeeds within its retries, returns with an
  empty pending log and status \<open>Success\<close>.
\<close>

theorem sync_push_failure_keeps_pending:
  assumes "c_online cl" "\<not> c_isSyncing cl" "fetchData opts = Some f" "isMounted st"
    and "retryRequest True f (retryAttempts opts) (retryDelay opts) = Some (evs, Inr remote)"
    and "validateAndApply opts (applyPending (merge opts) remote (c_pendingChanges cl))"
    and "pushData opts = Some p" "c_pendingChanges cl \<noteq> []"
    and "retryRequest True (p (applyPending (merge opts) remote (c_pendingChanges cl)))
           (retryAttempts opts) (retryDelay opts) = Some (evs2, Inl msg)"
  shows "\<exists>st'. sync opts now cl st = Some st'
           \<and> pendingChanges st' = pendingChanges st
           \<and> syncStatus st' = Error
           \<and> (\<forall>opts2 now2 f2 p2 evs3 evs4 remote2 u.
                 fetchData opts2 = Some f2
                 \<and> retryRequest True f2 (retryAttempts opts2) (retryDelay opts2)
                     = Some (evs3, Inr remote2)
                 \<and> validateAndApply opts2 (applyPending (merge opts2) remote2 (pendingChanges st'))
                 \<and> pushData opts2 = Some p2
                 \<and> retryRequest True
                       (p2 (applyPending (merge opts2) remote2 (pendingChanges st')))
                       (retryAttempts opts2) (retryDelay opts2) = Some (evs4, Inr u)
                 \<longrightarrow> (\<exists>st''. sync opts2 now2 (render True st') st' = Some st''
                        \<and> pendingChanges st'' = [] \<and> syncStatus st'' = Success))"
proof -
  let ?final = "applyPending (merge opts) remote (c_pendingChanges cl)"
  let ?st' = "syncFailed msg
                (st\<lparr>isSyncing := True, syncStatus := Syncing,
                    io := io st @ map FetchIO evs @ map (PushIO ?final) evs2\<rparr>)"
  have run1: "sync opts now cl st = Some ?st'"
    by (rule sync_push_failed[OF assms(1-3) assms(5-9)])
  have pend: "pendingChanges ?st' = pendingChanges st"
    by (simp add: syncFailed_def)
  have stat: "syncStatus ?st' = Error" "\<not> isSyncing ?st'" "isMounted ?st'"
    using assms(4) by (simp_all add: syncFailed_def)
  have later: "\<exists>st''. sync opts2 now2 (render True ?st') ?st' = Some st''
                  \<and> pendingChanges st'' = [] \<and> syncStatus st'' = Success"
    if h: "fetchData opts2 = Some f2"
      "retryRequest True f2 (retryAttempts opts2) (retryDelay opts2) = Some (evs3, Inr remote2)"
      "validateAndApply opts2 (applyPending (merge opts2) remote2 (pendingChanges ?st'))"
      "pushData opts2 = Some p2"
      "retryRequest True (p2 (applyPending (merge opts2) remote2 (pendingChanges ?st')))
         (retryAttempts opts2) (retryDelay opts2) = Some (evs4, Inr u)"
    for opts2 :: "'a SyncOptions" and now2 f2 p2 evs3 evs4 remote2 u
  proof -
    let ?cl2 = "render True ?st'"
    have cl2: "c_online ?cl2" "\<not> c_isSyncing ?cl2" "c_pendingChanges ?cl2 = pendingChanges ?st'"
      using stat by (simp_all add: render_def)
    show ?thesis
    proof (cases "pendingChanges ?st' = []")
      case True
      have "sync opts2 now2 ?cl2 ?st' =
              Some (syncSucceeded
                      (applyPending (merge opts2) remote2 (c_pendingChanges ?cl2)) now2
                      (?st'\<lparr>isSyncing := True, syncStatus := Syncing,
                           io := io ?st' @ map FetchIO evs3\<rparr>))"
        using cl2 h True by (intro sync_nothing_to_push) simp_all
      then show ?thesis
        using True stat by (simp add: syncSucceeded_def)
    next
      case False
      have "sync opts2 now2 ?cl2 ?st' =
              Some (syncSucceeded
                      (applyPending (merge opts2) remote2 (c_pendingChanges ?cl2)) now2
                      (?st'\<lparr>isSyncing := True, syncStatus := Syncing,
                           io := io ?st' @ map FetchIO evs3
                                   @ map (PushIO (applyPending (merge opts2) remote2
                                                    (c_pendingChanges ?cl2))) evs4,
                           pendingChanges := []\<rparr>))"
        using cl2 h False by (intro sync_pushed) simp_all
      then show ?thesis
        using stat by (simp add: syncSucceeded_def)
    qed
  qed
  show ?thesis
    using run1 pend stat(1) later by blast
qed

theorem sync_push_failure_keeps_pending_witness:
  "(case sync (defaultSync (\<lambda>i. Inr [(''count'', 0), (''extra'', 7)])
                 (Some (\<lambda>d i. Inl (ErrorObj ''network''))))
           5 (render True editedOffline) editedOffline of
      None \<Rightarrow> False
    | Some st' \<Rightarrow>
        pendingChanges st' = [\<lparr>pc_timestamp = 1, pc_data = [(''count'', 1)], pc_type = Update\<rparr>]
        \<and> syncStatus st' = Error
        \<and> (case sync (defaultSync (\<lambda>i. Inr [(''count'', 0), (''extra'', 7)])
                         (Some (\<lambda>d i. Inr ())))
                   9 (render True st') st' of
              None \<Rightarrow> False
            | Some st'' \<Rightarrow> pendingChanges st'' = [] \<and> syncStatus st'' = Success))"
proof -
  let ?f = "\<lambda>i::nat. Inr [(''count'', 0::nat), (''extra'', 7)] :: thrown + nat obj"
  let ?p = "\<lambda>(d::nat obj) (i::nat). Inl (ErrorObj ''network'') :: thrown + unit"
  let ?p2 = "\<lambda>(d::nat obj) (i::nat). Inr () :: thrown + unit"
  let ?o = "defaultSync ?f (Some ?p)"
  let ?o2 = "defaultSync ?f (Some ?p2)"
  let ?cl = "render True editedOffline"
  let ?remote = "[(''count'', 0::nat), (''extra'', 7)]"
  have log: "pendingChanges editedOffline
               = [\<lparr>pc_timestamp = 1, pc_data = [(''count'', 1)], pc_type = Update\<rparr>]"
    by (simp add: editedOffline_def update_def initialSync_def validateAndApply_def rejects_def
          defaultSync_def Let_def)
  have pre: "c_online ?cl" "\<not> c_isSyncing ?cl" "fetchData ?o = Some ?f" "isMounted editedOffline"
    "pushData ?o = Some ?p" "c_pendingChanges ?cl \<noteq> []"
    by (simp_all add: render_def editedOffline_def update_def initialSync_def validateAndApply_def
          rejects_def defaultSync_def Let_def)
  have fetched: "retryRequest True ?f (retryAttempts ?o) (retryDelay ?o)
                   = Some ([Attempt 0], Inr ?remote)"
    by (simp add: retryRequest_def retryLoop.simps defaultSync_def)
  have valid: "validateAndApply ?o (applyPending (merge ?o) ?remote (c_pendingChanges ?cl))"
    by (simp add: validateAndApply_def rejects_def defaultSync_def)
  have pushed: "retryRequest True (?p (applyPending (merge ?o) ?remote (c_pendingChanges ?cl)))
                  (retryAttempts ?o) (retryDelay ?o)
                  = Some ([Attempt 0, Wait 1000, Attempt 1, Wait 2000, Attempt 2, Wait 3000],
                          Inl ''network'')"
    by (simp add: retryRequest_def retryLoop.simps defaultSync_def toError_def)
  from sync_push_failure_keeps_pending[OF pre(1-4) fetched valid pre(5,6) pushed, of 5]
  obtain st' where s:
    "sync ?o 5 ?cl editedOffline = Some st'"
    "pendingChanges st' = pendingChanges editedOffline"
    "syncStatus st' = Error"
    and later: "\<And>opts2 now2 f2 p2 evs3 evs4 remote2 u.
       fetchData opts2 = Some f2 \<Longrightarrow>
       retryRequest True f2 (retryAttempts opts2) (retryDelay opts2) = Some (evs3, Inr remote2) \<Longrightarrow>
       validateAndApply opts2 (applyPending (merge opts2) remote2 (pendingChanges st')) \<Longrightarrow>
       pushData opts2 = Some p2 \<Longrightarrow>
       retryRequest True (p2 (applyPending (merge opts2) remote2 (pendingChanges st')))
         (retryAttempts opts2) (retryDelay opts2) = Some (evs4, Inr u) \<Longrightarrow>
       \<exists>st''. sync opts2 now2 (render True st') st' = Some st''
              \<and> pendingChanges st'' = [] \<and> syncStatus st'' = Success"
    by blast
  have "\<exists>st''. sync ?o2 9 (render True st') st' = Some st''
              \<and> pendingChanges st'' = [] \<and> syncStatus st'' = Success"
  proof (rule later)
    show "fetchData ?o2 = Some ?f" by (simp add: defaultSync_def)
    show "retryRequest True ?f (retryAttempts ?o2) (retryDelay ?o2) = Some ([Attempt 0], Inr ?remote)"
      by (simp add: retryRequest_def retryLoop.simps defaultSync_def)
    show "validateAndApply ?o2 (applyPending (merge ?o2) ?remote (pendingChanges st'))"
      by (simp add: validateAndApply_def rejects_def defaultSync_def)
    show "pushData ?o2 = Some ?p2" by (simp add: defaultSync_def)
    show "retryRequest True (?p2 (applyPending (merge ?o2) ?remote (pendingChanges st')))
            (retryAttempts ?o2) (retryDelay ?o2) = Some ([Attempt 0], Inr ())"
      by (simp add: retryRequest_def retryLoop.simps defaultSync_def)
  qed
  then show ?thesis
    using s log by auto
qed

subsection \<open>Retries of the fetch\<close>




subsection \<open>Local updates\<close>

text \<open>
  Claim C5. \<open>update\<close> merges the changes into the data with the merge strategy. If
  the validator rejects the merged data, the state is left as it was: the data and the
  pending log are unchanged. Otherwise the data becomes the merged data and one change
  of kind \<open>Update\<close>, holding the changes and the time of the call, is appended to
  the pending log. With the default merge strategy the merged data is the old data
  with every field of the changes written over it (the changes being an object, with
  no field twice). The call makes no fetch or push request: the log \<open>io\<close> is
  unchanged.
\<close>

theorem update_is_local:
  "(\<not> validateAndApply opts (merge opts (data st) changes) \<longrightarrow> update opts now changes st = st)
   \<and> (validateAndApply opts (merge opts (data st) changes) \<longrightarrow>
         data (update opts now changes st) = merge opts (data st) changes
         \<and> pendingChanges (update opts now changes st)
             = pendingChanges st @ [\<lparr>pc_timestamp = now, pc_data = changes, pc_type = Update\<rparr>])
   \<and> (mergeStrategy opts = None \<and> distinct (map fst changes) \<longrightarrow>
         map_of (merge opts (data st) changes) = map_of (data st) ++ map_of changes)
   \<and> io (update opts now changes st) = io st"
  by (simp add: update_def Let_def merge_def map_of_defaultMergeStrategy)

theorem update_is_local_witness:
  "update (defaultSync (\<lambda>i. Inl NonError) None\<lparr>validateData := Some (\<lambda>d. map_of d ''count'' \<noteq> Some 13)\<rparr>)
      2 [(''count'', 13)] (initialSync [(''count'', 0), (''extra'', 7)] [])
     = initialSync [(''count'', 0), (''extra'', 7)] []
   \<and> data (update (defaultSync (\<lambda>i. Inl NonError) None) 2 [(''count'', 1)]
              (initialSync [(''count'', 0), (''extra'', 7)] []))
       = [(''count'', 1), (''extra'', 7)]
   \<and> pendingChanges (update (defaultSync (\<lambda>i. Inl NonError) None) 2 [(''count'', 1)]
                        (initialSync [(''count'', 0), (''extra'', 7)] []))
       = [\<lparr>pc_timestamp = 2, pc_data = [(''count'', 1)], pc_type = Update\<rparr>]
   \<and> io (update (defaultSync (\<lambda>i. Inl NonError) None) 2 [(''count'', 1)]
            (initialSync [(''count'', 0), (''extra'', 7)] [])) = []"
proof -
  let ?o = "defaultSync (\<lambda>i. Inl NonError) None"
  let ?strict = "?o\<lparr>validateData := Some (\<lambda>d. map_of d ''count'' \<noteq> Some 13)\<rparr>"
  let ?st = "initialSync [(''count'', 0::nat), (''extra'', 7)] []"
  have m: "merge ?o (data ?st) [(''count'', 1)] = [(''count'', 1), (''extra'', 7)]"
    "merge ?strict (data ?st) [(''count'', 13)] = [(''count'', 13), (''extra'', 7)]"
    by (simp_all add: merge_def defaultSync_def defaultMergeStrategy_def initialSync_def)
  have v: "validateAndApply ?o (merge ?o (data ?st) [(''count'', 1)])"
    "\<not> validateAndApply ?strict (merge ?strict (data ?st) [(''count'', 13)])"
    unfolding m by (simp_all add: validateAndApply_def rejects_def defaultSync_def)
  have "io ?st = []" "pendingChanges ?st = []"
    by (simp_all add: initialSync_def)
  then show ?thesis
    using update_is_local[of ?o ?st "[(''count'', 1)]" 2]
      update_is_local[of ?strict ?st "[(''count'', 13)]" 2] v m
    by simp
qed

subsection \<open>The merged data of a sync\<close>

text \<open>
  Claim C6. Take any two calls of \<open>sync\<close> that pass the guard, in any states, at
  any times and after any number of failed fetch attempts, whose fetch gives the same
  remote snapshot, whose callbacks captured the same pending log and which use the
  same merge strategy. If both end with status \<open>Success\<close>, they leave the same
  data: the remote snapshot with the changes of kind \<open>Update\<close> of the log merged
  onto it in log order, which is the fold of the whole log when every change in it is
  an \<open>Update\<close> (the only kind that \<open>update\<close> appends). The value does not
  depend on the number of calls: where no push is configured, so that the log stays as
  it is, any number of calls in a row leaves that same data.
\<close>

theorem sync_merge_deterministic:
  assumes "c_online clA" "\<not> c_isSyncing clA" "fetchData optsA = Some fA"
    and "retryRequest True fA (retryAttempts optsA) (retryDelay optsA) = Some (evsA, Inr remote)"
    and "sync optsA nowA clA stA = Some stA'" "syncStatus stA' = Success"
    and "c_online clB" "\<not> c_isSyncing clB" "fetchData optsB = Some fB"
    and "retryRequest True fB (retryAttempts optsB) (retryDelay optsB) = Some (evsB, Inr remote)"
    and "sync optsB nowB clB stB = Some stB'" "syncStatus stB' = Success"
    and "c_pendingChanges clA = c_pendingChanges clB" "merge optsA = merge optsB"
  shows "data stA' = data stB'
       \<and> data stA' = applyPending (merge optsA) remote (c_pendingChanges clA)
       \<and> ((\<forall>c\<in>set (c_pendingChanges clA). pc_type c = Update) \<longrightarrow>
             data stA' = foldl (merge optsA) remote (map pc_data (c_pendingChanges clA)))
       \<and> (\<forall>n. pushData optsA = None \<and> isMounted stA \<and> \<not> isSyncing stA
               \<and> validateAndApply optsA (applyPending (merge optsA) remote (pendingChanges stA))
             \<longrightarrow> map_option data (syncTimes optsA nowA (Suc n) stA)
                   = Some (applyPending (merge optsA) remote (pendingChanges stA)))"
proof -
  have a: "data stA' = applyPending (merge optsA) remote (c_pendingChanges clA)"
    using assms(1-6) by (rule sync_success_data)
  have b: "data stB' = applyPending (merge optsB) remote (c_pendingChanges clB)"
    using assms(7-12) by (rule sync_success_data)
  have c: "map_option data (syncTimes optsA nowA (Suc n) stA)
             = Some (applyPending (merge optsA) remote (pendingChanges stA))"
    if "pushData optsA = None" "isMounted stA" "\<not> isSyncing stA"
       "validateAndApply optsA (applyPending (merge optsA) remote (pendingChanges stA))" for n
    using syncTimes_without_push[OF assms(3) that(1) assms(4) that(4) that(2) that(3), of nowA n]
    by auto
  show ?thesis
    using a b c assms(13,14) applyPending_updates[of "c_pendingChanges clA" "merge optsA" remote]
    by auto
qed

theorem sync_merge_deterministic_witness:
  "data (the (sync (defaultSync (\<lambda>i. Inr [(''count'', 0), (''extra'', 7)]) None) 5
                (render True editedOffline) editedOffline))
     = [(''count'', 1), (''extra'', 7)]
   \<and> data (the (sync (defaultSync (\<lambda>i. if i < 2 then Inl NonError
                                      else Inr [(''count'', 0), (''extra'', 7)]) None) 9
                (render True (editedOffline\<lparr>data := [(''stale'', 3)]\<rparr>))
                (editedOffline\<lparr>data := [(''stale'', 3)]\<rparr>)))
     = [(''count'', 1), (''extra'', 7)]
   \<and> map_option data
       (syncTimes (defaultSync (\<lambda>i. Inr [(''count'', 0), (''extra'', 7)]) None) 5 4 editedOffline)
     = Some [(''count'', 1), (''extra'', 7)]"
proof -
  let ?remote = "[(''count'', 0::nat), (''extra'', 7)]"
  let ?fA = "\<lambda>i::nat. Inr ?remote :: thrown + nat obj"
  let ?fB = "\<lambda>i::nat. if i < 2 then Inl NonError else Inr ?remote :: thrown + nat obj"
  let ?oA = "defaultSync ?fA None"
  let ?oB = "defaultSync ?fB None"
  let ?stB = "editedOffline\<lparr>data := [(''stale'', 3)]\<rparr>"
  let ?clA = "render True editedOffline"
  let ?clB = "render True ?stB"
  have ed: "editedOffline =
              \<lparr>data = [(''count'', 1)], lastSynced = None, isSyncing = False, error = None,
               syncStatus = Idle,
               pendingChanges = [\<lparr>pc_timestamp = 1, pc_data = [(''count'', 1)], pc_type = Update\<rparr>],
               isMounted = True, io = [], callbacks = []\<rparr>"
    by (simp add: editedOffline_def update_def initialSync_def validateAndApply_def rejects_def
          defaultSync_def merge_def defaultMergeStrategy_def Let_def)
  have fa: "retryRequest True ?fA (retryAttempts ?oA) (retryDelay ?oA) = Some ([Attempt 0], Inr ?remote)"
    by (simp add: retryRequest_def retryLoop.simps defaultSync_def)
  have fb: "retryRequest True ?fB (retryAttempts ?oB) (retryDelay ?oB)
              = Some ([Attempt 0, Wait 1000, Attempt 1, Wait 2000, Attempt 2], Inr ?remote)"
    by (simp add: retryRequest_def retryLoop.simps defaultSync_def toError_def)
  have pre: "c_online ?clA" "\<not> c_isSyncing ?clA" "fetchData ?oA = Some ?fA"
    "c_online ?clB" "\<not> c_isSyncing ?clB" "fetchData ?oB = Some ?fB"
    "c_pendingChanges ?clA = c_pendingChanges ?clB" "merge ?oA = merge ?oB"
    by (simp_all add: ed render_def defaultSync_def merge_def)
  have ra: "sync ?oA 5 ?clA editedOffline = Some (the (sync ?oA 5 ?clA editedOffline))"
    "syncStatus (the (sync ?oA 5 ?clA editedOffline)) = Success"
    by (simp_all add: sync_defs retryRequest_def retryLoop.simps ed render_def defaultSync_def
          validateAndApply_def rejects_def syncSucceeded_def merge_def)
  have rb: "sync ?oB 9 ?clB ?stB = Some (the (sync ?oB 9 ?clB ?stB))"
    "syncStatus (the (sync ?oB 9 ?clB ?stB)) = Success"
    by (simp_all add: sync_defs retryRequest_def retryLoop.simps toError_def ed render_def
          defaultSync_def validateAndApply_def rejects_def syncSucceeded_def merge_def)
  have val: "applyPending (merge ?oA) ?remote (c_pendingChanges ?clA) = [(''count'', 1), (''extra'', 7)]"
    "pendingChanges editedOffline = c_pendingChanges ?clA"
    "pushData ?oA = None \<and> isMounted editedOffline \<and> \<not> isSyncing editedOffline
       \<and> validateAndApply ?oA (applyPending (merge ?oA) ?remote (pendingChanges editedOffline))"
    by (simp_all add: ed render_def merge_def defaultSync_def defaultMergeStrategy_def
          validateAndApply_def rejects_def)
  note inst = sync_merge_deterministic[OF pre(1-3) fa ra pre(4-6) fb rb pre(7,8)]
  from inst have "data (the (sync ?oA 5 ?clA editedOffline)) = data (the (sync ?oB 9 ?clB ?stB))"
    and "data (the (sync ?oA 5 ?clA editedOffline))
           = applyPending (merge ?oA) ?remote (c_pendingChanges ?clA)"
    and "map_option data (syncTimes ?oA 5 (Suc 3) editedOffline)
           = Some (applyPending (merge ?oA) ?remote (pendingChanges editedOffline))"
    using val(3) by blast+
  then show ?thesis
    using val(1,2) by (simp add: eval_nat_numeral)
qed

subsection \<open>Two calls of one callback\<close>

text \<open>
  Claim C7. The guard of \<open>sync\<close> reads \<open>state.isSyncing\<close> as the callback
  captured it. Two calls of the callback of one render, made while online with a fetch
  configured (for example \<open>forceSync\<close> called twice by one event handler), both
  read \<open>false\<close>: the first call passes the guard and sets the state to syncing, and
  the second call, made while the first waits for its fetch and the state says
  syncing, passes the guard as well. Both cycles then run: there are two fetch
  requests and two calls of \<open>onSync\<close>. The second call is not dropped and two
  cycles are in flight.
\<close>

theorem sync_second_call_not_dropped:
  "map_option snd
     (syncEnter (defaultSync (\<lambda>i. Inr [(''count'', 0)]) None)
        (render True (initialSync [(''count'', 0)] []))
        (initialSync [(''count'', 0)] []))
     = Some ((initialSync [(''count'', 0)] [])\<lparr>isSyncing := True, syncStatus := Syncing\<rparr>)
   \<and> map_option snd
       (syncEnter (defaultSync (\<lambda>i. Inr [(''count'', 0)]) None)
          (render True (initialSync [(''count'', 0)] []))
          ((initialSync [(''count'', 0)] [])\<lparr>isSyncing := True, syncStatus := Syncing\<rparr>))
     = Some ((initialSync [(''count'', 0)] [])\<lparr>isSyncing := True, syncStatus := Syncing\<rparr>)
   \<and> map_option (\<lambda>st. (io st, callbacks st))
       (Option.bind
          (syncCycle (defaultSync (\<lambda>i. Inr [(''count'', 0)]) None) 7
             (render True (initialSync [(''count'', 0)] [])) (\<lambda>i. Inr [(''count'', 0)])
             ((initialSync [(''count'', 0)] [])\<lparr>isSyncing := True, syncStatus := Syncing\<rparr>))
          (syncCycle (defaultSync (\<lambda>i. Inr [(''count'', 0)]) None) 8
             (render True (initialSync [(''count'', 0)] [])) (\<lambda>i. Inr [(''count'', 0)])))
     = Some ([FetchIO (Attempt 0), FetchIO (Attempt 0)],
             [OnSync [(''count'', 0)], OnSync [(''count'', 0)]])"
  by (simp add: sync_defs defaultSync_def render_def initialSync_def retryRequest_def
      retryLoop.simps validateAndApply_def rejects_def syncSucceeded_def)

section \<open>Properties of the bounded cache\<close>

lemmas cache_defs = cache_set_def cache_get_def cache_has_def cache_remove_def emptyCache_def
  rejects_def updateAccessOrder_def removeItem_def storageKey_def AList.delete_eq Let_def

subsection \<open>Size bound and eviction order\<close>

lemma enforceSizeLimit_bound:
  assumes "enforceSizeLimit limit st = Some st'"
  shows "length (cacheRef st') \<le> limit"
  by (rule enforceSizeLimit.raw_induct[OF _ assms]) (auto split: if_splits list.splits)

lemma cache_set_bound:
  "cache_set opts now key val st = Some st' \<Longrightarrow> \<not> rejects (validate opts) val \<Longrightarrow>
   length (cacheRef st') \<le> maxSize opts"
  by (auto simp: cache_set_def Let_def split: option.splits dest: enforceSizeLimit_bound)

lemma cache_set_rejected:
  "rejects (validate opts) val \<Longrightarrow>
   cache_set opts now key val st = Some (st\<lparr>cacheError := Some ''Invalid data''\<rparr>)"
  by (simp add: cache_set_def)

lemma filter_keys_all:
  "fst ` set entries \<subseteq> set (take n keys) \<Longrightarrow>
   filter (\<lambda>(k, e). k \<in> set (take n keys)) entries = entries"
  by (auto simp: filter_id_conv)

text \<open>
  With no empty key in the access order, the loop ends, and what it removes is a
  suffix of the access order, the least recently touched keys, and no more of them
  than the bound needs.
\<close>

lemma enforceSizeLimit_lru:
  assumes "[] \<notin> set (accessOrderRef st)" "distinct (accessOrderRef st)"
    and "fst ` set (cacheRef st) \<subseteq> set (accessOrderRef st)"
  shows "\<exists>st' n. enforceSizeLimit limit st = Some st'
           \<and> n \<le> length (accessOrderRef st)
           \<and> accessOrderRef st' = take n (accessOrderRef st)
           \<and> cacheRef st' = filter (\<lambda>(k, e). k \<in> set (take n (accessOrderRef st))) (cacheRef st)
           \<and> length (cacheRef st') \<le> limit
           \<and> (n < length (accessOrderRef st) \<longrightarrow>
                limit < length (filter (\<lambda>(k, e). k \<in> set (take (Suc n) (accessOrderRef st)))
                                  (cacheRef st)))"
  using assms
proof (induction "accessOrderRef st" arbitrary: st rule: rev_induct)
  case Nil
  then have "cacheRef st = []" by auto
  with Nil show ?case
    by (subst enforceSizeLimit.simps) simp
next
  case (snoc x xs)
  have ord: "accessOrderRef st = xs @ [x]" using snoc.hyps(2) by simp
  have x: "x \<noteq> []" "x \<notin> set xs" "distinct xs" "[] \<notin> set xs"
    using snoc.prems ord by auto
  have all: "filter (\<lambda>(k, e). k \<in> set (take (Suc (length xs)) (accessOrderRef st))) (cacheRef st)
               = cacheRef st"
    using snoc.prems(3) ord by (intro filter_keys_all) simp
  show ?case
  proof (cases "limit < length (cacheRef st)")
    case False
    have "enforceSizeLimit limit st = Some st"
      using False by (subst enforceSizeLimit.simps) simp
    moreover have "length (accessOrderRef st) = Suc (length xs)"
      using ord by simp
    ultimately show ?thesis
      using False all by (intro exI[of _ st] exI[of _ "Suc (length xs)"]) simp
  next
    case True
    let ?st1 = "removeItem x (st\<lparr>accessOrderRef := xs, cacheRef := AList.delete x (cacheRef st)\<rparr>)"
    have st1: "accessOrderRef ?st1 = xs" "cacheRef ?st1 = AList.delete x (cacheRef st)"
      by (simp_all add: removeItem_def)
    have sub: "fst ` set (cacheRef ?st1) \<subseteq> set (accessOrderRef ?st1)"
      unfolding st1 using snoc.prems(3) ord by (auto simp: AList.delete_eq)
    have "\<exists>st' n. enforceSizeLimit limit ?st1 = Some st'
           \<and> n \<le> length (accessOrderRef ?st1)
           \<and> accessOrderRef st' = take n (accessOrderRef ?st1)
           \<and> cacheRef st'
               = filter (\<lambda>(k, e). k \<in> set (take n (accessOrderRef ?st1))) (cacheRef ?st1)
           \<and> length (cacheRef st') \<le> limit
           \<and> (n < length (accessOrderRef ?st1) \<longrightarrow>
                limit < length (filter (\<lambda>(k, e). k \<in> set (take (Suc n) (accessOrderRef ?st1)))
                                  (cacheRef ?st1)))"
      using x sub by (intro snoc.hyps(1)) (simp_all add: st1)
    then obtain st' n where r:
      "enforceSizeLimit limit ?st1 = Some st'" "n \<le> length xs"
      "accessOrderRef st' = take n xs"
      "cacheRef st' = filter (\<lambda>(k, e). k \<in> set (take n xs)) (AList.delete x (cacheRef st))"
      "length (cacheRef st') \<le> limit"
      "n < length xs \<longrightarrow>
         limit < length (filter (\<lambda>(k, e). k \<in> set (take (Suc n) xs))
                           (AList.delete x (cacheRef st)))"
      unfolding st1 by blast
    have unfold: "enforceSizeLimit limit st = Some st'"
      using True ord x(1) r(1) by (subst enforceSizeLimit.simps) simp
    have notin: "x \<notin> set (take j xs)" for j
      using x(2) by (auto dest: in_set_takeD)
    have flt: "filter (\<lambda>(k, e). k \<in> set (take j xs)) (AList.delete x (cacheRef st))
                 = filter (\<lambda>(k, e). k \<in> set (take j xs)) (cacheRef st)" for j
      using notin[of j] by (auto simp: AList.delete_eq intro!: filter_cong)
    have tk: "take j (accessOrderRef st) = take j xs" if "j \<le> length xs" for j
      using that ord by simp
    have c1: "accessOrderRef st' = take n (accessOrderRef st)"
      using r(2,3) tk by simp
    have c2: "cacheRef st'
                = filter (\<lambda>(k, e). k \<in> set (take n (accessOrderRef st))) (cacheRef st)"
      using r(2,4) tk flt by simp
    have c3: "limit < length (filter (\<lambda>(k, e). k \<in> set (take (Suc n) (accessOrderRef st)))
                                (cacheRef st))"
    proof (cases "n < length xs")
      case True
      then have "take (Suc n) (accessOrderRef st) = take (Suc n) xs"
        by (intro tk) simp
      with r(6) True flt show ?thesis by simp
    next
      case False
      with r(2) have "n = length xs" by simp
      with all \<open>limit < length (cacheRef st)\<close> show ?thesis by simp
    qed
    have c0: "n \<le> length (accessOrderRef st)"
      using r(2) ord by simp
    show ?thesis
      using unfold c0 c1 c2 r(5) c3 by blast
  qed
qed

lemma cacheInv_empty: "cacheInv (emptyCache sto)"
  by (simp add: cacheInv_def emptyCache_def)

lemma cache_set_lru:
  assumes "cacheInv st" "key \<noteq> []" "\<not> rejects (validate opts) val"
  shows "\<exists>st' n. cache_set opts now key val st = Some st'
           \<and> cacheInv st'
           \<and> length (cacheRef st') \<le> maxSize opts
           \<and> accessOrderRef st' = take n (key # filter (\<lambda>k. k \<noteq> key) (accessOrderRef st))
           \<and> cacheRef st' =
               filter (\<lambda>(k, e). k \<in> set (accessOrderRef st'))
                 (AList.update key \<lparr>edata = val, timestamp = now, expiresAt = now + ttl opts\<rparr>
                    (cacheRef st))"
proof -
  let ?entry = "\<lparr>edata = val, timestamp = now, expiresAt = now + ttl opts\<rparr>"
  let ?st1 = "updateAccessOrder key (st\<lparr>cacheRef := AList.update key ?entry (cacheRef st)\<rparr>)"
  have f1: "accessOrderRef ?st1 = key # filter (\<lambda>k. k \<noteq> key) (accessOrderRef st)"
    "cacheRef ?st1 = AList.update key ?entry (cacheRef st)"
    by (simp_all add: updateAccessOrder_def)
  have "\<exists>st' n. enforceSizeLimit (maxSize opts) ?st1 = Some st'
           \<and> n \<le> length (accessOrderRef ?st1)
           \<and> accessOrderRef st' = take n (accessOrderRef ?st1)
           \<and> cacheRef st'
               = filter (\<lambda>(k, e). k \<in> set (take n (accessOrderRef ?st1))) (cacheRef ?st1)
           \<and> length (cacheRef st') \<le> maxSize opts
           \<and> (n < length (accessOrderRef ?st1) \<longrightarrow>
                maxSize opts
                  < length (filter (\<lambda>(k, e). k \<in> set (take (Suc n) (accessOrderRef ?st1)))
                              (cacheRef ?st1)))"
    unfolding f1 using assms(1,2)
    by (intro enforceSizeLimit_lru[of ?st1, unfolded f1]) (auto simp: cacheInv_def dom_update)
  then obtain st2 n where r:
    "enforceSizeLimit (maxSize opts) ?st1 = Some st2"
    "accessOrderRef st2 = take n (key # filter (\<lambda>k. k \<noteq> key) (accessOrderRef st))"
    "cacheRef st2
       = filter (\<lambda>(k, e). k \<in> set (take n (key # filter (\<lambda>k. k \<noteq> key) (accessOrderRef st))))
           (AList.update key ?entry (cacheRef st))"
    "length (cacheRef st2) \<le> maxSize opts"
    unfolding f1 by blast
  let ?st' = "st2\<lparr>storage := map_option (AList.update (storageKey key) (serialize opts ?entry))
                               (storage st2),
                  lastData := Some val, cacheError := None\<rparr>"
  have s: "cache_set opts now key val st = Some ?st'"
    using assms(3) r(1) by (simp add: cache_set_def)
  have d: "distinct (take n (key # filter (\<lambda>k. k \<noteq> key) (accessOrderRef st)))"
    using assms(1) by (intro distinct_take) (simp add: cacheInv_def)
  have e: "[] \<notin> set (take n (key # filter (\<lambda>k. k \<noteq> key) (accessOrderRef st)))"
    using assms(1,2) by (auto simp: cacheInv_def dest!: in_set_takeD)
  have inv: "cacheInv ?st'"
    using d e by (auto simp: cacheInv_def r(2,3))
  show ?thesis
    using s inv r(2,3,4) by (intro exI[of _ ?st'] exI[of _ n]) simp
qed

lemma cacheInv_get: "cacheInv st \<Longrightarrow> cacheInv (snd (cache_get now key st))"
  by (auto simp: cacheInv_def cache_get_def removeItem_def updateAccessOrder_def AList.delete_eq
      split: option.splits dest!: map_of_SomeD)

lemma cacheInv_has: "cacheInv st \<Longrightarrow> cacheInv (snd (cache_has now key st))"
  by (auto simp: cacheInv_def cache_has_def cache_remove_def removeItem_def AList.delete_eq
      split: option.splits)

lemma cacheInv_remove: "cacheInv st \<Longrightarrow> cacheInv (cache_remove key st)"
  by (auto simp: cacheInv_def cache_remove_def removeItem_def AList.delete_eq)

lemma cacheInv_clear: "cacheInv (cache_clear st)"
  by (simp add: cacheInv_def cache_clear_def)

text \<open>
  The example of the specification, for any three different keys none of which is the
  empty string: with \<open>maxSize = 2\<close>, after \<open>set(a); set(b); get(a); set(c)\<close>,
  where the \<open>get\<close> is a hit, the cache holds \<open>a\<close> and \<open>c\<close>.
\<close>

lemma lru_scenario:
  assumes "a \<noteq> b" "a \<noteq> c" "b \<noteq> c" "a \<noteq> []" "b \<noteq> []" "c \<noteq> []"
    and "maxSize opts = 2" "validate opts = None" "t3 \<le> t1 + ttl opts"
  shows "\<exists>s1 s2 s4. cache_set opts t1 a va (emptyCache None) = Some s1
           \<and> cache_set opts t2 b vb s1 = Some s2
           \<and> fst (cache_get t3 a s2) = Some va
           \<and> cache_set opts t4 c vc (snd (cache_get t3 a s2)) = Some s4
           \<and> map fst (cacheRef s4) = [a, c] \<and> accessOrderRef s4 = [c, a]"
  using assms
  by (simp add: cache_defs enforceSizeLimit.simps)

text \<open>
  The association list stays a map: no key is in it twice, so its length is the
  \<open>size\<close> of the source's \<open>Map\<close>.
\<close>

lemma enforceSizeLimit_distinct:
  assumes "enforceSizeLimit limit st = Some st'"
  shows "distinct (map fst (cacheRef st)) \<longrightarrow> distinct (map fst (cacheRef st'))"
  by (rule enforceSizeLimit.raw_induct[OF _ assms])
     (auto simp: removeItem_def distinct_delete split: if_splits list.splits)

lemma cache_set_distinct:
  "cache_set opts now key val st = Some st' \<Longrightarrow> distinct (map fst (cacheRef st)) \<Longrightarrow>
   distinct (map fst (cacheRef st'))"
  by (auto simp: cache_set_def updateAccessOrder_def Let_def distinct_update
      split: if_splits option.splits dest!: enforceSizeLimit_distinct)

lemma cache_get_distinct:
  "distinct (map fst (cacheRef st)) \<Longrightarrow> distinct (map fst (cacheRef (snd (cache_get now key st))))"
  by (auto simp: cache_get_def removeItem_def updateAccessOrder_def distinct_delete
      split: option.splits)

lemma cache_has_distinct:
  "distinct (map fst (cacheRef st)) \<Longrightarrow> distinct (map fst (cacheRef (snd (cache_has now key st))))"
  by (auto simp: cache_has_def cache_remove_def removeItem_def distinct_delete
      split: option.splits)

text \<open>
  The loop has one way not to end: more entries than the bound and an empty access
  order. It is reached with \<open>maxSize = 0\<close> and the empty string as key.
\<close>

lemma enforceSizeLimit_stuck:
  assumes "limit < length (cacheRef st)" "accessOrderRef st = []"
  shows "enforceSizeLimit limit st = None"
proof (rule ccontr)
  assume "enforceSizeLimit limit st \<noteq> None"
  then obtain st' where r: "enforceSizeLimit limit st = Some st'" by auto
  have "\<not> (limit < length (cacheRef st) \<and> accessOrderRef st = [])"
    by (rule enforceSizeLimit.raw_induct[OF _ r]) (auto split: if_splits list.splits)
  with assms show False by simp
qed

lemma cache_set_empty_key_never_returns:
  "maxSize opts = 0 \<Longrightarrow> \<not> rejects (validate opts) val \<Longrightarrow>
   cache_set opts now [] val (emptyCache sto) = None"
proof -
  assume m: "maxSize opts = 0" and v: "\<not> rejects (validate opts) val"
  let ?entry = "\<lparr>edata = val, timestamp = now, expiresAt = now + ttl opts\<rparr>"
  let ?st1 = "updateAccessOrder [] ((emptyCache sto)\<lparr>cacheRef := AList.update [] ?entry
                 (cacheRef (emptyCache sto))\<rparr>)"
  let ?st2 = "?st1\<lparr>accessOrderRef := []\<rparr>"
  have "enforceSizeLimit 0 ?st1 = enforceSizeLimit 0 ?st2"
    by (subst enforceSizeLimit.simps) (simp add: updateAccessOrder_def emptyCache_def)
  also have "\<dots> = None"
    by (rule enforceSizeLimit_stuck) (simp_all add: updateAccessOrder_def emptyCache_def)
  finally show ?thesis
    using m v by (simp add: cache_set_def)
qed

text \<open>
  Claim C1. With \<open>maxSize = 1\<close>, \<open>set('', 1)\<close> followed by \<open>set('a', 2)\<close>
  leaves the entry of the empty key in the cache and removes the entry of \<open>a\<close>,
  the one just set: the loop pops the empty key from the access order, skips the
  deletion because the empty string is falsy, and then pops and deletes \<open>a\<close>. The
  entry evicted is the most recently touched one, not the least recently touched one.
\<close>

theorem cache_set_empty_key_evicts_newest:
  "Option.bind
     (cache_set \<lparr>ttl = 300000, maxSize = 1, validate = None, serialize = (\<lambda>e. ''entry'')\<rparr>
        0 '''' (1::nat) (emptyCache None))
     (cache_set \<lparr>ttl = 300000, maxSize = 1, validate = None, serialize = (\<lambda>e. ''entry'')\<rparr>
        5 ''a'' 2)
   = Some \<lparr>cacheRef = [('''', \<lparr>edata = 1, timestamp = 0, expiresAt = 300000\<rparr>)],
           accessOrderRef = [], storage = None, lastData = Some 2, cacheError = None\<rparr>"
  by (simp add: cache_defs enforceSizeLimit.simps)

subsection \<open>Expiry\<close>

text \<open>
  Claim C4, as amended. For an entry that is in the cache, \<open>get\<close> returns absent
  when \<open>now > expiresAt\<close>, whether or not the entry was removed before, and returns
  the stored value when \<open>now \<le> expiresAt\<close>: at the instant \<open>now = expiresAt\<close>
  the entry is still served.
\<close>

theorem cache_get_expiry:
  "map_of (cacheRef st) key = Some e \<Longrightarrow>
   fst (cache_get now key st) = (if expiresAt e < now then None else Some (edata e))"
  by (simp add: cache_get_def)

theorem cache_get_expiry_witness:
  "fst (cache_get 1001 ''k''
          \<lparr>cacheRef = [(''k'', \<lparr>edata = 7::nat, timestamp = 0, expiresAt = 1000\<rparr>)],
           accessOrderRef = [''k''], storage = None, lastData = Some 7, cacheError = None\<rparr>)
     = None
   \<and> fst (cache_get 1000 ''k''
          \<lparr>cacheRef = [(''k'', \<lparr>edata = 7::nat, timestamp = 0, expiresAt = 1000\<rparr>)],
           accessOrderRef = [''k''], storage = None, lastData = Some 7, cacheError = None\<rparr>)
     = Some 7"
  using
    cache_get_expiry[of "\<lparr>cacheRef = [(''k'', \<lparr>edata = 7::nat, timestamp = 0, expiresAt = 1000\<rparr>)],
        accessOrderRef = [''k''], storage = None, lastData = Some 7, cacheError = None\<rparr>"
      "''k''" "\<lparr>edata = 7::nat, timestamp = 0, expiresAt = 1000\<rparr>" 1001]
    cache_get_expiry[of "\<lparr>cacheRef = [(''k'', \<lparr>edata = 7::nat, timestamp = 0, expiresAt = 1000\<rparr>)],
        accessOrderRef = [''k''], storage = None, lastData = Some 7, cacheError = None\<rparr>"
      "''k''" "\<lparr>edata = 7::nat, timestamp = 0, expiresAt = 1000\<rparr>" 1000]
  by simp

text \<open>
  The claim as written fails at the instant of expiry: an entry set at time 0 with
  \<open>ttl = 1000\<close> has \<open>expiresAt = 1000\<close>, and \<open>get\<close> at \<open>now = 1000\<close>
  returns its value.
\<close>

theorem cache_get_at_expiry_counterexample:
  "map_option (\<lambda>st. (map (\<lambda>(k, e). (k, expiresAt e)) (cacheRef st),
                      fst (cache_get 1000 ''k'' st)))
     (cache_set \<lparr>ttl = 1000, maxSize = 100, validate = None, serialize = (\<lambda>e. ''entry'')\<rparr>
        0 ''k'' (7::nat) (emptyCache None))
   = Some ([(''k'', 1000)], Some 7)"
  by (simp add: cache_defs enforceSizeLimit.simps)

subsection \<open>The recency order under has\<close>

text \<open>
  Claim C10. A \<open>has\<close> that returns true changes nothing, so the access order is
  exactly as before; a \<open>has\<close> on a missing key returns false and changes nothing.
  For an entry that has not expired, \<open>has\<close> returns true and leaves the state as
  it is, while \<open>get\<close> moves the key to the front of the access order. For an
  expired entry, \<open>has\<close> returns false, and afterwards the key is not in the cache,
  not in the access order (the other keys keep their order) and its item is not in the
  storage, if there is one (the other items are kept).
\<close>

theorem cache_has_keeps_order:
  "(fst (cache_has now key st) \<longrightarrow> snd (cache_has now key st) = st)
   \<and> (map_of (cacheRef st) key = None \<longrightarrow> cache_has now key st = (False, st))
   \<and> (\<forall>e. map_of (cacheRef st) key = Some e \<and> \<not> expiresAt e < now \<longrightarrow>
          cache_has now key st = (True, st)
          \<and> accessOrderRef (snd (cache_get now key st))
              = key # filter (\<lambda>k. k \<noteq> key) (accessOrderRef st))
   \<and> (\<forall>e. map_of (cacheRef st) key = Some e \<and> expiresAt e < now \<longrightarrow>
          \<not> fst (cache_has now key st)
          \<and> map_of (cacheRef (snd (cache_has now key st))) key = None
          \<and> accessOrderRef (snd (cache_has now key st))
              = filter (\<lambda>k. k \<noteq> key) (accessOrderRef st)
          \<and> (case storage st of
                None \<Rightarrow> storage (snd (cache_has now key st)) = None
              | Some items \<Rightarrow>
                  (case storage (snd (cache_has now key st)) of
                     None \<Rightarrow> False
                   | Some items' \<Rightarrow>
                       map_of items' (storageKey key) = None
                       \<and> (\<forall>k. k \<noteq> storageKey key \<longrightarrow> map_of items' k = map_of items k))))"
  by (auto simp: cache_has_def cache_get_def cache_remove_def removeItem_def updateAccessOrder_def
        delete_conv' split: option.splits)

theorem cache_has_keeps_order_witness:
  "cache_has 500 ''k''
     \<lparr>cacheRef = [(''j'', \<lparr>edata = 1::nat, timestamp = 0, expiresAt = 9000\<rparr>),
                  (''k'', \<lparr>edata = 7, timestamp = 0, expiresAt = 1000\<rparr>)],
      accessOrderRef = [''j'', ''k''], storage = Some [(''cache:j'', ''1''), (''cache:k'', ''7'')],
      lastData = Some 7, cacheError = None\<rparr>
   = (True,
      \<lparr>cacheRef = [(''j'', \<lparr>edata = 1::nat, timestamp = 0, expiresAt = 9000\<rparr>),
                   (''k'', \<lparr>edata = 7, timestamp = 0, expiresAt = 1000\<rparr>)],
       accessOrderRef = [''j'', ''k''], storage = Some [(''cache:j'', ''1''), (''cache:k'', ''7'')],
       lastData = Some 7, cacheError = None\<rparr>)
   \<and> accessOrderRef (snd (cache_get 500 ''k''
        \<lparr>cacheRef = [(''j'', \<lparr>edata = 1::nat, timestamp = 0, expiresAt = 9000\<rparr>),
                     (''k'', \<lparr>edata = 7, timestamp = 0, expiresAt = 1000\<rparr>)],
         accessOrderRef = [''j'', ''k''], storage = Some [(''cache:j'', ''1''), (''cache:k'', ''7'')],
         lastData = Some 7, cacheError = None\<rparr>))
     = [''k'', ''j'']
   \<and> \<not> fst (cache_has 2000 ''k''
        \<lparr>cacheRef = [(''j'', \<lparr>edata = 1::nat, timestamp = 0, expiresAt = 9000\<rparr>),
                     (''k'', \<lparr>edata = 7, timestamp = 0, expiresAt = 1000\<rparr>)],
         accessOrderRef = [''j'', ''k''], storage = Some [(''cache:j'', ''1''), (''cache:k'', ''7'')],
         lastData = Some 7, cacheError = None\<rparr>)
   \<and> accessOrderRef (snd (cache_has 2000 ''k''
        \<lparr>cacheRef = [(''j'', \<lparr>edata = 1::nat, timestamp = 0, expiresAt = 9000\<rparr>),
                     (''k'', \<lparr>edata = 7, timestamp = 0, expiresAt = 1000\<rparr>)],
         accessOrderRef = [''j'', ''k''], storage = Some [(''cache:j'', ''1''), (''cache:k'', ''7'')],
         lastData = Some 7, cacheError = None\<rparr>))
     = [''j'']"
proof -
  let ?st = "\<lparr>cacheRef = [(''j'', \<lparr>edata = 1::nat, timestamp = 0, expiresAt = 9000\<rparr>),
                          (''k'', \<lparr>edata = 7, timestamp = 0, expiresAt = 1000\<rparr>)],
              accessOrderRef = [''j'', ''k''],
              storage = Some [(''cache:j'', ''1''), (''cache:k'', ''7'')],
              lastData = Some 7, cacheError = None\<rparr>"
  let ?e = "\<lparr>edata = 7::nat, timestamp = 0, expiresAt = 1000\<rparr>"
  have e: "map_of (cacheRef ?st) ''k'' = Some ?e" "expiresAt ?e = 1000"
    by simp_all
  from cache_has_keeps_order[of 500 "''k''" ?st] e
  have "cache_has 500 ''k'' ?st = (True, ?st)
        \<and> accessOrderRef (snd (cache_get 500 ''k'' ?st))
            = ''k'' # filter (\<lambda>k. k \<noteq> ''k'') (accessOrderRef ?st)"
    by simp
  moreover from cache_has_keeps_order[of 2000 "''k''" ?st] e
  have "\<not> fst (cache_has 2000 ''k'' ?st)
        \<and> accessOrderRef (snd (cache_has 2000 ''k'' ?st))
            = filter (\<lambda>k. k \<noteq> ''k'') (accessOrderRef ?st)"
    by simp
  ultimately show ?thesis by simp
qed

section \<open>Properties of the reconnecting channel\<close>

lemmas channel_defs = step_def connect_def onclose_def reconnectTimer_def close_def
  setSocketState_def currentState_def closeSocket_def initialChannel_def Let_def

lemma currentState_frame [simp]:
  "currentState (st\<lparr>messageQueueRef := q\<rparr>) = currentState st"
  "currentState (st\<lparr>transmitted := t\<rparr>) = currentState st"
  "currentState (st\<lparr>connected := b\<rparr>) = currentState st"
  "currentState (st\<lparr>wsError := e\<rparr>) = currentState st"
  "currentState (st\<lparr>readyState := r\<rparr>) = currentState st"
  "currentState (st\<lparr>reconnectCount := n\<rparr>) = currentState st"
  "currentState (st\<lparr>heartbeatIntervalRef := h\<rparr>) = currentState st"
  by (simp_all add: currentState_def split: option.splits)


lemma setSocketState_frame [simp]:
  "wsRef (setSocketState i r st) = wsRef st"
  "messageQueueRef (setSocketState i r st) = messageQueueRef st"
  "transmitted (setSocketState i r st) = transmitted st"
  by (simp_all add: setSocketState_def)

subsection \<open>Sending and flushing\<close>












subsection \<open>Reconnect attempts\<close>

lemma flushQueue_keeps_state:
  assumes "flushQueue opts st = Some st'"
  shows "reconnectCount st' = reconnectCount st \<and> connected st' = connected st
         \<and> readyState st' = readyState st"
  by (rule flushQueue.raw_induct[OF _ assms])
     (auto simp: send_def split: list.splits option.splits if_splits)

text \<open>Every open event that the handler completes sets \<open>reconnectCount\<close> to 0.\<close>

lemma onopen_resets_reconnectCount:
  "onopen opts st = Some st' \<Longrightarrow> reconnectCount st' = 0 \<and> connected st' \<and> readyState st' = OPEN"
  by (auto simp: onopen_def split: option.splits if_splits dest!: flushQueue_keeps_state)

text \<open>
  A close handler whose closure is of the current render schedules a reconnect only
  below the ceiling.
\<close>

lemma onclose_fresh_closure:
  "reconnectTimeoutRef st = None \<Longrightarrow>
   reconnectTimeoutRef (onclose opts (connectClosure online st) st) \<noteq> None \<Longrightarrow>
   reconnectCount st < reconnectAttempts opts"
  by (auto simp: onclose_def connectClosure_def Let_def split: if_splits)

text \<open>
  Claim C8. With \<open>reconnectAttempts = 3\<close> and a server that refuses every
  connection, the close handler of the third failed retry schedules another reconnect,
  and when that timer fires \<open>reconnectCount\<close> is 4. The handler compares the
  \<open>state.reconnectCount\<close> that its \<open>connect\<close> captured, and the timer calls that
  same \<open>connect\<close> again, so along the chain of retries the captured count stays 0.
  This holds for the handlers and the timer alone and also when the hook's effects
  make their own calls of \<open>close\<close> and of the \<open>connect\<close> of each new render.
\<close>

theorem reconnect_ceiling_exceeded:
  "map_option (\<lambda>st. (reconnectCount st, reconnectTimeoutRef st))
     (run threeAttempts refusedHandlers initialChannel)
     = Some (3, Some (closureAt 0))
   \<and> map_option reconnectCount
       (run threeAttempts (refusedHandlers @ [ReconnectTimer]) initialChannel) = Some 4
   \<and> map_option (\<lambda>st. (reconnectCount st, reconnectTimeoutRef st))
       (run threeAttempts refusedWithEffects initialChannel)
     = Some (3, Some (closureAt 0))
   \<and> map_option reconnectCount
       (run threeAttempts (refusedWithEffects @ [ReconnectTimer]) initialChannel) = Some 4"
  by (simp add: channel_defs threeAttempts_def closureAt_def refusedHandlers_def
      refusedWithEffects_def)

end
